theory Spec2Isabelle
  imports Main
begin

section \<open>Python string primitives used by the sources\<close>

text \<open>
  Python strings are modelled as HOL strings (lists of characters).  The functions below
  are the fragments of \<^verbatim>\<open>str.count\<close>, \<^verbatim>\<open>str.split\<close>, \<^verbatim>\<open>str.startswith\<close>,
  \<^verbatim>\<open>str.strip\<close> and \<^verbatim>\<open>str.rstrip\<close> that the sources call.
\<close>

definition count_char :: "char \<Rightarrow> string \<Rightarrow> nat" where
  \<comment> \<open>\<^verbatim>\<open>s.count(c)\<close> for a one-character \<^verbatim>\<open>c\<close>\<close>
  "count_char c s = length (filter (\<lambda>x. x = c) s)"

fun split_char :: "char \<Rightarrow> string \<Rightarrow> string list" where
  \<comment> \<open>\<^verbatim>\<open>s.split(c)\<close> for a one-character separator: empty fields are kept\<close>
  "split_char sep [] = [[]]"
| "split_char sep (c # cs) =
     (if c = sep then [] # split_char sep cs
      else (case split_char sep cs of
              [] \<Rightarrow> [[c]]
            | w # ws \<Rightarrow> (c # w) # ws))"

definition startswith :: "string \<Rightarrow> string \<Rightarrow> bool" where
  "startswith s p = (take (length p) s = p)"

section \<open>Conversation names (gptme/util/generate\_name.py)\<close>

definition actions :: "string list" where
  "actions = [''running'', ''jumping'', ''walking'', ''skipping'', ''hopping'', ''flying'',
              ''swimming'', ''crawling'', ''sneaking'', ''sprinting'', ''sneaking'',
              ''dancing'', ''singing'', ''laughing'']"

definition adjectives :: "string list" where
  "adjectives = [''funny'', ''happy'', ''sad'', ''angry'', ''silly'', ''crazy'', ''sneaky'',
                 ''sleepy'', ''hungry'', ''red'', ''blue'', ''green'', ''pink'', ''purple'',
                 ''yellow'', ''orange'']"

definition nouns :: "string list" where
  "nouns = [''cat'', ''dog'', ''rat'', ''mouse'', ''fish'', ''elephant'', ''dinosaur'',
            ''bird'', ''pelican'', ''dragon'', ''unicorn'', ''mermaid'', ''monster'',
            ''alien'', ''robot'', ''whale'', ''shark'', ''walrus'', ''octopus'', ''squid'',
            ''jellyfish'', ''starfish'', ''penguin'', ''seal'']"

text \<open>
  \<^verbatim>\<open>random.choice(seq)\<close> returns \<^verbatim>\<open>seq[i]\<close> for an index \<^verbatim>\<open>i\<close> drawn below
  \<^verbatim>\<open>len(seq)\<close>.  The three draws of \<^verbatim>\<open>generate_name\<close> are its arguments here.
\<close>

definition generate_name :: "nat \<Rightarrow> nat \<Rightarrow> nat \<Rightarrow> string" where
  "generate_name ra rj rn =
     (let action = actions ! ra;
          adjective = adjectives ! rj;
          noun = nouns ! rn
      in action @ ''-'' @ adjective @ ''-'' @ noun)"

definition is_generated_name :: "string \<Rightarrow> bool" where
  "is_generated_name name =
     (let all_words = actions @ adjectives @ nouns
      in count_char CHR ''-'' name = 2
         \<and> list_all (\<lambda>word. word \<in> set all_words) (split_char CHR ''-'' name))"

section \<open>Facts about the string primitives\<close>

lemma split_char_nonempty: "split_char sep s \<noteq> []"
  by (induction s) (auto split: list.splits)

lemma split_char_no_sep: "sep \<notin> set s \<Longrightarrow> split_char sep s = [s]"
  by (induction s) auto

lemma split_char_append:
  "sep \<notin> set a \<Longrightarrow> split_char sep (a @ sep # rest) = a # split_char sep rest"
  by (induction a) auto

lemma count_char_append: "count_char c (a @ b) = count_char c a + count_char c b"
  by (simp add: count_char_def)

lemma count_char_Cons:
  "count_char c (x # s) = (if x = c then 1 else 0) + count_char c s"
  by (simp add: count_char_def)

lemma count_char_absent: "c \<notin> set s \<Longrightarrow> count_char c s = 0"
  by (induction s) (auto simp: count_char_def)

section \<open>Generated names are recognised\<close>

lemma words_no_dash:
  "\<forall>w \<in> set (actions @ adjectives @ nouns). CHR ''-'' \<notin> set w"
  by (simp add: actions_def adjectives_def nouns_def)

text \<open>
  C10.  Every string that \<^verbatim>\<open>generate_name\<close> can return (whatever the three random
  draws below the lengths of the word lists are) is accepted by \<^verbatim>\<open>is_generated_name\<close>.
\<close>

theorem generate_name_is_generated:
  assumes "ra < length actions" and "rj < length adjectives" and "rn < length nouns"
  shows "is_generated_name (generate_name ra rj rn)"
proof -
  let ?a = "actions ! ra" and ?j = "adjectives ! rj" and ?n = "nouns ! rn"
  have mem: "?a \<in> set (actions @ adjectives @ nouns)"
            "?j \<in> set (actions @ adjectives @ nouns)"
            "?n \<in> set (actions @ adjectives @ nouns)"
    using assms by simp_all
  then have nd: "CHR ''-'' \<notin> set ?a" "CHR ''-'' \<notin> set ?j" "CHR ''-'' \<notin> set ?n"
    using words_no_dash by blast+
  have sp: "split_char CHR ''-'' (?a @ CHR ''-'' # ?j @ CHR ''-'' # ?n) = [?a, ?j, ?n]"
    using nd by (simp add: split_char_append split_char_no_sep)
  have ct: "count_char CHR ''-'' (?a @ CHR ''-'' # ?j @ CHR ''-'' # ?n) = 2"
    using nd by (simp add: count_char_append count_char_Cons count_char_absent)
  show ?thesis
    unfolding is_generated_name_def generate_name_def Let_def
    using sp ct mem by simp
qed

theorem generate_name_is_generated_witness:
  "(3::nat) < length actions \<and> (9::nat) < length adjectives \<and> (23::nat) < length nouns
   \<and> generate_name 3 9 23 = ''skipping-red-seal''
   \<and> is_generated_name ''skipping-red-seal''"
  using generate_name_is_generated [of 3 9 23]
  by (simp add: generate_name_def actions_def adjectives_def nouns_def)

section \<open>The fragment of Python's json module used by the log file\<close>

text \<open>
  \<^verbatim>\<open>write_log\<close> writes \<^verbatim>\<open>json.dumps(msg.to_dict())\<close> and \<^verbatim>\<open>load\<close> reads
  \<^verbatim>\<open>json.loads(line)\<close>.  The dictionaries involved hold strings, booleans and lists of
  strings, so the JSON values modelled are those.  \<^verbatim>\<open>json.dumps\<close> uses its defaults:
  separators \<^verbatim>\<open>", "\<close> and \<^verbatim>\<open>": "\<close>, and \<^verbatim>\<open>ensure_ascii\<close>, which escapes every
  character outside the printable ASCII range.  A character is a code point below 256 here;
  a \<^verbatim>\<open>\u\<close> escape of a larger code point is outside the model and is rejected.
\<close>

definition DQUOTE :: char where "DQUOTE = CHR 0x22"
definition BSLASH :: char where "BSLASH = CHR 0x5C"
definition LF :: char where "LF = CHR 0x0A"
definition CR :: char where "CR = CHR 0x0D"

definition hex_digit :: "nat \<Rightarrow> char" where
  "hex_digit n = (if n < 10 then char_of (48 + n) else char_of (87 + n))"


definition escape_char :: "char \<Rightarrow> string" where
  "escape_char c =
     (let n = (of_char c :: nat) in
      if c = DQUOTE then [BSLASH, DQUOTE]
      else if c = BSLASH then [BSLASH, BSLASH]
      else if c = LF then [BSLASH, CHR ''n'']
      else if c = CR then [BSLASH, CHR ''r'']
      else if c = CHR 0x09 then [BSLASH, CHR ''t'']
      else if c = CHR 0x0C then [BSLASH, CHR ''f'']
      else if c = CHR 0x08 then [BSLASH, CHR ''b'']
      else if n < 32 \<or> 126 < n
        then [BSLASH, CHR ''u'', CHR ''0'', CHR ''0'', hex_digit (n div 16), hex_digit (n mod 16)]
      else [c])"

definition dumps_str :: "string \<Rightarrow> string" where
  "dumps_str s = DQUOTE # concat (map escape_char s) @ [DQUOTE]"












datatype jvalue = JString string | JBool bool | JStrings "string list"

definition is_ws :: "char \<Rightarrow> bool" where
  "is_ws c = (c = CHR '' '' \<or> c = CHR 0x09 \<or> c = LF \<or> c = CR)"

fun skip_ws :: "string \<Rightarrow> string" where
  "skip_ws [] = []"
| "skip_ws (c # cs) = (if is_ws c then skip_ws cs else c # cs)"


fun join :: "string \<Rightarrow> string list \<Rightarrow> string" where
  "join sep [] = []"
| "join sep [x] = x"
| "join sep (x # y # ys) = x @ sep @ join sep (y # ys)"

fun dumps_value :: "jvalue \<Rightarrow> string" where
  "dumps_value (JString s) = dumps_str s"
| "dumps_value (JBool b) = (if b then ''true'' else ''false'')"
| "dumps_value (JStrings xs) = ''['' @ join '', '' (map dumps_str xs) @ '']''"

definition dumps_member :: "string \<times> jvalue \<Rightarrow> string" where
  "dumps_member kv = dumps_str (fst kv) @ '': '' @ dumps_value (snd kv)"

definition json_dumps :: "(string \<times> jvalue) list \<Rightarrow> string" where
  "json_dumps d = ''{'' @ join '', '' (map dumps_member d) @ ''}''"















lemma skip_ws_not_ws: "\<not> is_ws c \<Longrightarrow> skip_ws (c # cs) = c # cs"
  by simp















section \<open>Messages\<close>

text \<open>
  Modelled from the spec: the \<^verbatim>\<open>Message\<close> class (gptme/message.py is not among the
  sources).  Section 3 of the specification gives its attributes, and section 6 says that
  a persisted record has one field per attribute.  The timestamp is kept as its text.
\<close>

record message =
  role :: string
  content :: string
  files :: "string list"
  hide :: bool
  quiet :: bool
  pinned :: bool
  timestamp :: string

datatype py_error =
  IndexError | FileNotFoundError | JSONDecodeError | TypeError | OSError | ValueError
  | AssertionError

definition Message :: "string \<Rightarrow> string \<Rightarrow> string \<Rightarrow> message" where
  \<comment> \<open>\<^verbatim>\<open>Message(role, content)\<close>: the other attributes take their defaults; the
      timestamp is the current time, an argument here\<close>
  "Message r c now =
     \<lparr>role = r, content = c, files = [], hide = False, quiet = False, pinned = False,
      timestamp = now\<rparr>"

definition to_dict :: "message \<Rightarrow> (string \<times> jvalue) list" where
  "to_dict m =
     [(''role'', JString (role m)),
      (''content'', JString (content m)),
      (''files'', JStrings (files m)),
      (''hide'', JBool (hide m)),
      (''quiet'', JBool (quiet m)),
      (''pinned'', JBool (pinned m)),
      (''timestamp'', JString (timestamp m))]"






definition dumps_message :: "message \<Rightarrow> string" where
  "dumps_message m = json_dumps (to_dict m)"





section \<open>Paths and text files\<close>

text \<open>
  A path is the list of its components, as \<^verbatim>\<open>PurePath.parts\<close> gives them: an absolute
  path starts with the component \<^verbatim>\<open>/\<close>.  The file system maps the path of a regular
  file to its text; directories are not entries of their own.
\<close>

type_synonym path = "string list"

definition Path :: "string \<Rightarrow> path" where
  "Path s =
     (if startswith s ''/'' then [''/''] else [])
     @ filter (\<lambda>c. c \<noteq> [] \<and> c \<noteq> ''.'') (split_char CHR ''/'' s)"

definition is_absolute :: "path \<Rightarrow> bool" where
  "is_absolute p = (case p of [] \<Rightarrow> False | c # _ \<Rightarrow> c = ''/'')"

definition joinpath :: "path \<Rightarrow> path \<Rightarrow> path" where
  \<comment> \<open>\<^verbatim>\<open>p / q\<close>\<close>
  "joinpath p q = (if is_absolute q then q else p @ q)"

definition parent :: "path \<Rightarrow> path" where
  "parent p = (if p = [''/''] then p else butlast p)"




section \<open>The conversation log (gptme/logmanager.py)\<close>

datatype printed =
  Text string           \<comment> \<open>a line printed with \<^verbatim>\<open>print\<close>\<close>
| Shown message         \<comment> \<open>\<^verbatim>\<open>print_msg(msg, oneline=False)\<close>\<close>
| Undone message        \<comment> \<open>the red line \<^verbatim>\<open>undo\<close> prints for a removed message\<close>

text \<open>
  The state a \<^verbatim>\<open>LogManager\<close> works on: its attributes \<^verbatim>\<open>log\<close>, \<^verbatim>\<open>logfile\<close> and
  \<^verbatim>\<open>show_hidden\<close>, the file system and what has been printed.
\<close>

record state =
  log :: "message list"
  logfile :: path
  show_hidden :: bool
  fs :: "path \<rightharpoonup> string"
  console :: "printed list"

datatype msg_or_log = One message | Many "message list"

definition dumps_log :: "message list \<Rightarrow> string" where
  \<comment> \<open>what the loop of \<^verbatim>\<open>write_log\<close> writes for a list\<close>
  "dumps_log msgs = concat (map (\<lambda>msg. dumps_message msg @ [LF]) msgs)"

fun write_log :: "msg_or_log \<Rightarrow> path \<Rightarrow> (path \<rightharpoonup> string) \<Rightarrow> (path \<rightharpoonup> string)" where
  "write_log (One msg) file disk =
     disk(file \<mapsto> (case disk file of None \<Rightarrow> [] | Some old \<Rightarrow> old)
                      @ dumps_message msg @ [LF])"
| "write_log (Many msgs) file disk = disk(file \<mapsto> dumps_log msgs)"

definition write_lm :: "state \<Rightarrow> state" where
  \<comment> \<open>\<^verbatim>\<open>LogManager.write\<close>\<close>
  "write_lm s = s\<lparr>fs := write_log (Many (log s)) (logfile s) (fs s)\<rparr>"

definition append_lm :: "message \<Rightarrow> state \<Rightarrow> state" where
  \<comment> \<open>\<^verbatim>\<open>LogManager.append\<close>\<close>
  "append_lm msg s =
     (let s1 = write_lm (s\<lparr>log := log s @ [msg]\<rparr>)
      in if \<not> quiet msg then s1\<lparr>console := console s1 @ [Shown msg]\<rparr> else s1)"

definition pop :: "int \<Rightarrow> state \<Rightarrow> py_error + message \<times> state" where
  \<comment> \<open>\<^verbatim>\<open>self.log.pop(index)\<close>: a negative index counts from the end\<close>
  "pop index s =
     (let n = int (length (log s));
          i = (if index < 0 then index + n else index)
      in if 0 \<le> i \<and> i < n
         then Inr (log s ! nat i, s\<lparr>log := take (nat i) (log s) @ drop (Suc (nat i)) (log s)\<rparr>)
         else Inl IndexError)"

fun undo_loop :: "nat \<Rightarrow> bool \<Rightarrow> state \<Rightarrow> py_error option \<times> state" where
  \<comment> \<open>the \<^verbatim>\<open>for _ in range(n)\<close> loop of \<^verbatim>\<open>undo\<close>; an exception leaves the state as
      it was when raised\<close>
  "undo_loop 0 q s = (None, s)"
| "undo_loop (Suc k) q s =
     (case pop (- 1) s of
        Inl e \<Rightarrow> (Some e, s)
      | Inr (undid, s1) \<Rightarrow>
          undo_loop k q
            (if \<not> q then s1\<lparr>console := console s1 @ [Undone undid]\<rparr> else s1))"

definition undo :: "int \<Rightarrow> bool \<Rightarrow> state \<Rightarrow> py_error option \<times> state" where
  \<comment> \<open>\<^verbatim>\<open>undo(n, quiet)\<close>; a Message counts as true in a condition, so \<^verbatim>\<open>undid\<close> and
      \<^verbatim>\<open>peek\<close> are false exactly when the log is empty\<close>
  "undo n q s =
     (let s1 = (if log s \<noteq> [] \<and> startswith (content (last (log s))) ''.undo''
                then (case pop (- 1) s of Inr (_, s') \<Rightarrow> s' | Inl _ \<Rightarrow> s)
                else s)
      in if log s1 = [] then (None, s1\<lparr>console := console s1 @ [Text ''[yellow]Nothing to undo.[/]'']\<rparr>)
         else
           undo_loop (nat n) q
             (if \<not> q
              then s1\<lparr>console := console s1 @ [Text ''[yellow]Undoing messages:[/yellow]'']\<rparr>
              else s1))"

definition rename :: "string \<Rightarrow> state \<Rightarrow> py_error + state" where
  "rename name s =
     (let target = joinpath (parent (logfile s)) (Path (name @ ''.log''))
      in case fs s (logfile s) of
           None \<Rightarrow> Inl FileNotFoundError
         | Some text \<Rightarrow>
             Inr (s\<lparr>fs := ((fs s)(logfile s := None))(target \<mapsto> text), logfile := target\<rparr>))"

definition fork :: "string \<Rightarrow> state \<Rightarrow> state" where
  "fork name s =
     (let s1 = write_lm s
      in s1\<lparr>logfile := joinpath (parent (logfile s1)) (Path (name @ ''.log''))\<rparr>)"



section \<open>Facts about the log operations\<close>

lemma pop_last:
  "log s \<noteq> [] \<Longrightarrow> pop (- 1) s = Inr (last (log s), s\<lparr>log := butlast (log s)\<rparr>)"
  by (cases "log s" rule: rev_cases) (simp_all add: pop_def Let_def nth_append)

lemma pop_empty: "log s = [] \<Longrightarrow> pop (- 1) s = Inl IndexError"
  by (simp add: pop_def)

lemma undo_loop_frame:
  "fs (snd (undo_loop k q s)) = fs s \<and> logfile (snd (undo_loop k q s)) = logfile s"
proof (induction k arbitrary: s q)
  case 0
  show ?case by simp
next
  case (Suc k)
  show ?case
  proof (cases "log s = []")
    case True
    then show ?thesis by (simp add: pop_empty)
  next
    case False
    then show ?thesis by (simp add: pop_last Suc)
  qed
qed

lemma undo_loop_enough:
  "k \<le> length (log s) \<Longrightarrow>
   fst (undo_loop k q s) = None
   \<and> log (snd (undo_loop k q s)) = take (length (log s) - k) (log s)"
proof (induction k arbitrary: s q)
  case 0
  show ?case by simp
next
  case (Suc k)
  then have ne: "log s \<noteq> []" by auto
  have le: "k \<le> length (butlast (log s))" using Suc.prems by simp
  have "length (log s) - Suc k < length (log s)" using ne by (cases "log s") auto
  then have tk: "take (length (log s) - Suc k) (butlast (log s)) = take (length (log s) - Suc k) (log s)"
    by (rule take_butlast)
  show ?case
    using le tk ne by (simp add: pop_last Suc.IH)
qed


lemma undo_frame:
  "fs (snd (undo n q s)) = fs s \<and> logfile (snd (undo n q s)) = logfile s"
  by (simp add: undo_def Let_def pop_last undo_loop_frame)

section \<open>Example conversations\<close>

definition msg_hi :: message where
  "msg_hi = Message ''user'' ''hi'' ''2024-01-01T10:00:00''"

definition msg_reply :: message where
  "msg_reply = Message ''assistant'' [CHR ''o'', CHR ''k'', LF, CHR ''!''] ''2024-01-01T10:00:05''"

definition msg_undo :: message where
  "msg_undo = Message ''user'' ''.undo'' ''2024-01-01T10:00:09''"

definition fresh_state :: state where
  "fresh_state =
     \<lparr>log = [], logfile = Path ''logs/demo/conversation.jsonl'', show_hidden = False,
      fs = Map.empty, console = []\<rparr>"

definition talked_state :: state where
  \<comment> \<open>two messages appended, so the file holds both\<close>
  "talked_state = append_lm msg_reply (append_lm msg_hi fresh_state)"

section \<open>Undo\<close>






lemma append_lm_file:
  "fs (append_lm msg s) (logfile s) = Some (dumps_log (log s @ [msg]))
   \<and> log (append_lm msg s) = log s @ [msg] \<and> logfile (append_lm msg s) = logfile s"
  by (simp add: append_lm_def write_lm_def Let_def)

lemma write_lm_file:
  "fs (write_lm s) (logfile s) = Some (dumps_log (log s))
   \<and> log (write_lm s) = log s \<and> logfile (write_lm s) = logfile s"
  by (simp add: write_lm_def)

text \<open>
  C8.  \<^verbatim>\<open>undo\<close> changes neither the file system nor the log file's path, whatever
  \<^verbatim>\<open>n\<close> is and whether or not it raises: a file that held the whole log before still
  holds it afterwards, removed messages included.  The next \<^verbatim>\<open>append\<close> or \<^verbatim>\<open>write\<close>
  makes the file hold the in-memory log again.
\<close>

theorem undo_leaves_file:
  "fs (snd (undo n q s)) = fs s
   \<and> logfile (snd (undo n q s)) = logfile s
   \<and> (fs s (logfile s) = Some (dumps_log (log s)) \<longrightarrow>
        fs (snd (undo n q s)) (logfile (snd (undo n q s))) = Some (dumps_log (log s)))
   \<and> fs (append_lm msg (snd (undo n q s))) (logfile s)
       = Some (dumps_log (log (append_lm msg (snd (undo n q s)))))
   \<and> fs (write_lm (snd (undo n q s))) (logfile s)
       = Some (dumps_log (log (write_lm (snd (undo n q s)))))"
  using append_lm_file [of msg "snd (undo n q s)"] write_lm_file [of "snd (undo n q s)"]
  by (simp add: undo_frame)

lemma talked_state_file:
  "log talked_state = [msg_hi, msg_reply]
   \<and> fs talked_state (logfile talked_state) = Some (dumps_log [msg_hi, msg_reply])"
proof -
  let ?s1 = "append_lm msg_hi fresh_state"
  have 1: "log ?s1 = [msg_hi]" "logfile ?s1 = logfile fresh_state"
    using append_lm_file [of msg_hi fresh_state] by (simp_all add: fresh_state_def)
  show ?thesis
    using append_lm_file [of msg_reply ?s1] 1 by (simp add: talked_state_def)
qed

lemma dumps_log_grows: "length (dumps_log (ms @ [m])) > length (dumps_log ms)"
  by (simp add: dumps_log_def)

theorem undo_leaves_file_witness:
  "fs talked_state (logfile talked_state) = Some (dumps_log (log talked_state))
   \<and> log (snd (undo 1 True talked_state)) = [msg_hi]
   \<and> fs (snd (undo 1 True talked_state)) (logfile (snd (undo 1 True talked_state)))
       = Some (dumps_log [msg_hi, msg_reply])
   \<and> dumps_log [msg_hi, msg_reply] \<noteq> dumps_log [msg_hi]"
proof -
  have a: "fs talked_state (logfile talked_state) = Some (dumps_log (log talked_state))"
    by (simp add: talked_state_file)
  have b: "log (snd (undo 1 True talked_state)) = [msg_hi]"
    by (simp add: undo_def Let_def talked_state_file pop_last startswith_def msg_reply_def
          Message_def)
  have c: "dumps_log [msg_hi, msg_reply] \<noteq> dumps_log [msg_hi]"
    using dumps_log_grows [of "[msg_hi]" msg_reply] by auto
  show ?thesis
    using undo_leaves_file [of 1 True talked_state msg_hi] a b c
    by (simp add: talked_state_file)
qed

section \<open>Fork\<close>

definition undone_state :: state where
  \<comment> \<open>after an undo the memory holds one message and the file two\<close>
  "undone_state = snd (undo 1 True talked_state)"

lemma talked_state_logfile:
  "logfile talked_state = [''logs'', ''demo'', ''conversation.jsonl'']"
proof -
  have "logfile fresh_state = [''logs'', ''demo'', ''conversation.jsonl'']"
    by (simp add: fresh_state_def Path_def startswith_def)
  then show ?thesis
    using append_lm_file [of msg_reply "append_lm msg_hi fresh_state"]
          append_lm_file [of msg_hi fresh_state]
    by (simp add: talked_state_def)
qed

lemma talked_state_disk:
  "fs talked_state [''logs'', ''demo'', ''conversation.jsonl'']
   = Some (dumps_log [msg_hi, msg_reply])"
  "fs talked_state [''logs'', ''demo'', ''branch.log''] = None"
proof -
  show "fs talked_state [''logs'', ''demo'', ''conversation.jsonl'']
        = Some (dumps_log [msg_hi, msg_reply])"
    using talked_state_file talked_state_logfile by simp
  have "logfile fresh_state = [''logs'', ''demo'', ''conversation.jsonl'']"
    by (simp add: fresh_state_def Path_def startswith_def)
  then show "fs talked_state [''logs'', ''demo'', ''branch.log''] = None"
    by (simp add: talked_state_def append_lm_def write_lm_def Let_def fresh_state_def)
qed

lemma undone_state_facts:
  "log undone_state = [msg_hi]"
  "logfile undone_state = [''logs'', ''demo'', ''conversation.jsonl'']"
  "fs undone_state = fs talked_state"
  using talked_state_logfile
  by (simp_all add: undone_state_def undo_frame)
     (simp add: undo_def Let_def talked_state_file pop_last startswith_def msg_reply_def
        Message_def)

lemma dumps_log_differ: "dumps_log [msg_hi, msg_reply] \<noteq> dumps_log [msg_hi]"
  using dumps_log_grows [of "[msg_hi]" msg_reply] by auto

lemma branch_path:
  "joinpath (parent [''logs'', ''demo'', ''conversation.jsonl'']) (Path ''branch.log'')
   = [''logs'', ''demo'', ''branch.log'']"
  by (simp add: joinpath_def parent_def Path_def is_absolute_def startswith_def)

text \<open>
  C5, as stated: \<^verbatim>\<open>fork\<close> writes the messages to the new file and leaves the old file
  untouched.  After an undo the old file holds two messages and the memory one; the fork
  rewrites the old file and creates no new file.
\<close>

theorem fork_counterexample:
  "fs (fork ''branch'' undone_state) (logfile undone_state) \<noteq> fs undone_state (logfile undone_state)
   \<and> logfile (fork ''branch'' undone_state) = [''logs'', ''demo'', ''branch.log'']
   \<and> fs (fork ''branch'' undone_state) [''logs'', ''demo'', ''branch.log''] = None"
  using undone_state_facts talked_state_disk dumps_log_differ branch_path
  by (simp add: fork_def write_lm_def Let_def)

text \<open>
  C5, amended.  \<^verbatim>\<open>fork(name)\<close> writes the in-memory messages to the current (old)
  log file and then points \<^verbatim>\<open>logfile\<close> at \<^verbatim>\<open>name.log\<close> beside it; the messages stay
  as they are.  It writes nothing to the new file (when that is another file than the old
  one), and it leaves the old file unchanged exactly in that the file already held the
  in-memory log.  The next append writes the whole log to the new file.
\<close>

theorem fork_saves_then_switches:
  "fork name s =
     s\<lparr>fs := (fs s)(logfile s \<mapsto> dumps_log (log s)),
       logfile := joinpath (parent (logfile s)) (Path (name @ ''.log''))\<rparr>
   \<and> (logfile (fork name s) \<noteq> logfile s \<longrightarrow>
        fs (fork name s) (logfile (fork name s)) = fs s (logfile (fork name s)))
   \<and> (fs s (logfile s) = Some (dumps_log (log s)) \<longrightarrow> fs (fork name s) = fs s)
   \<and> fs (append_lm msg (fork name s))
       = (fs (fork name s))(logfile (fork name s) \<mapsto> dumps_log (log s @ [msg]))"
  by (auto simp: fork_def write_lm_def append_lm_def Let_def)

theorem fork_saves_then_switches_witness:
  "logfile (fork ''branch'' undone_state) \<noteq> logfile undone_state
   \<and> fs (fork ''branch'' undone_state) (logfile (fork ''branch'' undone_state)) = None
   \<and> fs talked_state (logfile talked_state) = Some (dumps_log (log talked_state))
   \<and> fs (fork ''branch'' talked_state) = fs talked_state
   \<and> fs (append_lm msg_undo (fork ''branch'' undone_state))
         (logfile (fork ''branch'' undone_state))
       = Some (dumps_log [msg_hi, msg_undo])"
proof -
  note u = fork_saves_then_switches [of "''branch''" undone_state msg_undo]
  note t = fork_saves_then_switches [of "''branch''" talked_state msg_undo]
  have l: "logfile (fork ''branch'' undone_state) = [''logs'', ''demo'', ''branch.log'']"
    using undone_state_facts branch_path by (simp add: fork_def write_lm_def Let_def)
  have 1: "logfile (fork ''branch'' undone_state) \<noteq> logfile undone_state"
    using l undone_state_facts by simp
  have 2: "fs (fork ''branch'' undone_state) (logfile (fork ''branch'' undone_state)) = None"
    using u 1 l undone_state_facts talked_state_disk by metis
  have 3: "fs talked_state (logfile talked_state) = Some (dumps_log (log talked_state))"
    by (simp add: talked_state_file)
  have 4: "fs (fork ''branch'' talked_state) = fs talked_state"
    using t 3 by blast
  have "fs (append_lm msg_undo (fork ''branch'' undone_state))
        = (fs (fork ''branch'' undone_state))
            (logfile (fork ''branch'' undone_state) \<mapsto> dumps_log (log undone_state @ [msg_undo]))"
    using u by blast
  then have 5: "fs (append_lm msg_undo (fork ''branch'' undone_state))
         (logfile (fork ''branch'' undone_state)) = Some (dumps_log [msg_hi, msg_undo])"
    using undone_state_facts by simp
  show ?thesis using 1 2 3 4 5 by blast
qed

section \<open>Writing a log and loading it again\<close>

definition printable_ascii :: "string \<Rightarrow> bool" where
  "printable_ascii s = list_all (\<lambda>x. 32 \<le> (of_char x :: nat) \<and> (of_char x :: nat) \<le> 126) s"

lemma printable_ascii_Nil [simp]: "printable_ascii []"
  by (simp add: printable_ascii_def)

lemma printable_ascii_Cons [simp]:
  "printable_ascii (c # s)
   = (32 \<le> (of_char c :: nat) \<and> (of_char c :: nat) \<le> 126 \<and> printable_ascii s)"
  by (simp add: printable_ascii_def)

lemma printable_ascii_append [simp]:
  "printable_ascii (a @ b) = (printable_ascii a \<and> printable_ascii b)"
  by (simp add: printable_ascii_def)

















section \<open>More string primitives\<close>

definition is_space :: "char \<Rightarrow> bool" where
  \<comment> \<open>the characters below 256 that Python counts as whitespace (\<^verbatim>\<open>\s\<close>, \<^verbatim>\<open>str.split()\<close>)\<close>
  "is_space c =
     (let n = (of_char c :: nat)
      in (9 \<le> n \<and> n \<le> 13) \<or> (28 \<le> n \<and> n \<le> 32) \<or> n = 133 \<or> n = 160)"

fun split_where :: "(char \<Rightarrow> bool) \<Rightarrow> string \<Rightarrow> string list" where
  \<comment> \<open>\<^verbatim>\<open>re.split\<close> on a class of single characters: empty pieces are kept\<close>
  "split_where p [] = [[]]"
| "split_where p (c # cs) =
     (if p c then [] # split_where p cs
      else (case split_where p cs of
              [] \<Rightarrow> [[c]]
            | w # ws \<Rightarrow> (c # w) # ws))"

definition lstrip_chars :: "string \<Rightarrow> string \<Rightarrow> string" where
  "lstrip_chars chars s = dropWhile (\<lambda>c. c \<in> set chars) s"

definition rstrip_chars :: "string \<Rightarrow> string \<Rightarrow> string" where
  \<comment> \<open>\<^verbatim>\<open>s.rstrip(chars)\<close>: every trailing character that is in \<^verbatim>\<open>chars\<close> goes\<close>
  "rstrip_chars chars s = rev (dropWhile (\<lambda>c. c \<in> set chars) (rev s))"

definition strip_chars :: "string \<Rightarrow> string \<Rightarrow> string" where
  "strip_chars chars s = rstrip_chars chars (lstrip_chars chars s)"

definition split_whitespace :: "string \<Rightarrow> string list" where
  \<comment> \<open>\<^verbatim>\<open>s.split()\<close>: runs of whitespace separate, no empty pieces\<close>
  "split_whitespace s = filter (\<lambda>w. w \<noteq> []) (split_where is_space s)"

definition FENCE :: string where
  "FENCE = ''```''"

fun find_fence_end :: "string \<Rightarrow> string option" where
  \<comment> \<open>what follows the first newline-and-fence, if there is one\<close>
  "find_fence_end [] = None"
| "find_fence_end (c # cs) =
     (if startswith (c # cs) (LF # FENCE) then Some (drop 4 (c # cs)) else find_fence_end cs)"

lemma find_fence_end_length: "find_fence_end s = Some r \<Longrightarrow> length r < length s"
  by (induction s) (auto split: if_splits)

function strip_codeblocks :: "string \<Rightarrow> string" where
  \<comment> \<open>\<^verbatim>\<open>re.sub(r"```.*?\n```", "", s, flags=re.DOTALL)\<close>: from a fence to the first
      newline-and-fence after it, repeatedly, left to right\<close>
  "strip_codeblocks [] = []"
| "strip_codeblocks (c # cs) =
     (if startswith (c # cs) FENCE then
        (case find_fence_end (drop 3 (c # cs)) of
           Some rest \<Rightarrow> strip_codeblocks rest
         | None \<Rightarrow> c # strip_codeblocks cs)
      else c # strip_codeblocks cs)"
  by pat_completeness auto
termination
  by (relation "measure length") (auto dest!: find_fence_end_length)


definition lower_char :: "char \<Rightarrow> char" where
  "lower_char c =
     (let n = (of_char c :: nat)
      in if (65 \<le> n \<and> n \<le> 90) \<or> (192 \<le> n \<and> n \<le> 222 \<and> n \<noteq> 215)
         then char_of (n + 32) else c)"

definition suffix :: "string \<Rightarrow> string" where
  \<comment> \<open>\<^verbatim>\<open>PurePath.suffix\<close>: from the last dot of the final component, unless that dot
      starts or ends the name\<close>
  "suffix p =
     (let name = last (split_char CHR ''/'' p);
          ext = rev (takeWhile (\<lambda>c. c \<noteq> CHR ''.'') (rev name))
      in if CHR ''.'' \<in> set name \<and> ext \<noteq> [] \<and> Suc (length ext) < length name
         then CHR ''.'' # ext else [])"

section \<open>The environment of the chat loop\<close>

datatype entry =
  Missing | Directory | Text_file string | Binary_file | Broken nat

definition ENAMETOOLONG :: nat where
  "ENAMETOOLONG = 36"

datatype reply_result = Replied message | Cancelled

text \<open>
  What \<^verbatim>\<open>chat.py\<close> takes from outside: the file system as its paths resolve, a path
  being the text as it is written in the message
  (\<^verbatim>\<open>Broken n\<close> is a path whose access raises OSError with errno \<^verbatim>\<open>n\<close>), the modules
  that are not among the sources (commands, tools, the model backend, the context
  preparer), the user and the clock.  The model call and the tool run can be cancelled:
  \<^verbatim>\<open>reply\<close> then gives \<^verbatim>\<open>Cancelled\<close> (KeyboardInterrupt raised inside it), and
  \<^verbatim>\<open>execute_msg\<close> gives the messages it had yielded and \<^verbatim>\<open>True\<close>.
\<close>

record env =
  cwd_files :: "string list"
  lookup :: "string \<Rightarrow> entry"
  expanduser :: "string \<Rightarrow> string"
  workspace :: "string option"
  relative_to_workspace :: "string \<Rightarrow> string option"
  commands :: "string list"
  use_fresh_context :: bool
  has_browser :: bool
  is_url :: "string \<Rightarrow> bool"
  read_url :: "string \<Rightarrow> string option"
  clock :: string
  prompt_user :: "message list \<Rightarrow> string"
  prepare_messages :: "message list \<Rightarrow> message list"
  reply :: "message list \<Rightarrow> reply_result"
  execute_msg :: "message \<Rightarrow> message list \<times> bool"

section \<open>Content inclusion (gptme/chat.py)\<close>

definition is_command :: "env \<Rightarrow> string \<Rightarrow> bool" where
  "is_command e prompt = list_ex (\<lambda>cmd. startswith prompt (CHR ''/'' # cmd)) (commands e)"

definition codeblock :: "string \<Rightarrow> string \<Rightarrow> string" where
  "codeblock label body = FENCE @ label @ [LF] @ body @ [LF] @ FENCE"

definition parse_prompt_direct :: "env \<Rightarrow> string \<Rightarrow> (py_error + string option) option" where
  \<comment> \<open>the first half of \<^verbatim>\<open>_parse_prompt\<close>: \<^verbatim>\<open>Some r\<close> when it returns or raises there,
      \<^verbatim>\<open>None\<close> when control reaches the scan of the words\<close>
  "parse_prompt_direct e prompt =
     (if is_command e prompt then Some (Inr None)
      else (case lookup e prompt of
              Text_file body \<Rightarrow> Some (Inr (Some (codeblock prompt body)))
            | Binary_file \<Rightarrow> Some (Inr None)
            | Broken n \<Rightarrow> Some (Inl OSError)
            | _ \<Rightarrow> None))"

fun scan_words :: "env \<Rightarrow> string list \<Rightarrow> py_error + string list \<times> string list" where
  "scan_words e [] = Inr ([], [])"
| "scan_words e (word # rest) =
     (case lookup e word of
        Broken n \<Rightarrow> Inl OSError
      | Text_file body \<Rightarrow>
          (case scan_words e rest of
             Inl x \<Rightarrow> Inl x
           | Inr (paths, urls) \<Rightarrow> Inr (word # paths, urls))
      | Binary_file \<Rightarrow>
          (case scan_words e rest of
             Inl x \<Rightarrow> Inl x
           | Inr (paths, urls) \<Rightarrow> Inr (word # paths, urls))
      | _ \<Rightarrow>
          (case scan_words e rest of
             Inl x \<Rightarrow> Inl x
           | Inr (paths, urls) \<Rightarrow>
               if is_url e word then Inr (paths, word # urls) else Inr (paths, urls)))"

definition path_block :: "env \<Rightarrow> string \<Rightarrow> string" where
  \<comment> \<open>\<^verbatim>\<open>_parse_prompt(path) or ""\<close> for a word that is an existing file: the call
      returns from its first half\<close>
  "path_block e p = (case parse_prompt_direct e p of Some (Inr (Some block)) \<Rightarrow> block | _ \<Rightarrow> [])"

definition url_block :: "env \<Rightarrow> string \<Rightarrow> string" where
  "url_block e url = (case read_url e url of Some body \<Rightarrow> codeblock url body | None \<Rightarrow> [])"

definition parse_prompt :: "env \<Rightarrow> string \<Rightarrow> py_error + string option" where
  "parse_prompt e prompt =
     (case parse_prompt_direct e prompt of
        Some r \<Rightarrow> r
      | None \<Rightarrow>
          (case scan_words e (split_whitespace prompt) of
             Inl x \<Rightarrow> Inl x
           | Inr (paths, urls) \<Rightarrow>
               Inr (Some ((if paths \<noteq> [] \<or> urls \<noteq> [] then [LF, LF] else [])
                          @ concat (map (path_block e) paths)
                          @ (if has_browser e then concat (map (url_block e) urls) else [])))))"

definition parse_prompt_files :: "env \<Rightarrow> string \<Rightarrow> py_error + string option" where
  "parse_prompt_files e prompt =
     (if is_command e prompt then Inr None
      else (case lookup e prompt of
              Text_file body \<Rightarrow> Inr (Some (expanduser e prompt))
            | Binary_file \<Rightarrow>
                if map lower_char (drop 1 (suffix (expanduser e prompt)))
                   \<in> set [''png'', ''jpg'', ''jpeg'', ''gif'', ''pdf'']
                then Inr (Some (expanduser e prompt)) else Inr None
            | Broken n \<Rightarrow> if n \<noteq> ENAMETOOLONG then Inr None else Inl OSError
            | _ \<Rightarrow> Inr None))"

definition clean_word :: "string \<Rightarrow> string" where
  \<comment> \<open>\<^verbatim>\<open>word.strip("`")\<close> and then \<^verbatim>\<open>word.rstrip("?")\<close>\<close>
  "clean_word word = rstrip_chars ''?'' (strip_chars ''`'' word)"

definition is_candidate :: "env \<Rightarrow> string \<Rightarrow> bool" where
  "is_candidate e word =
     (list_ex (\<lambda>s. startswith word s) [''/'', ''~/'', ''./'']
      \<or> startswith word ''http''
      \<or> list_ex (\<lambda>file. takeWhile (\<lambda>c. c \<noteq> CHR ''/'') word = file) (cwd_files e))"

definition inline_contents :: "env \<Rightarrow> string \<Rightarrow> py_error + string option" where
  \<comment> \<open>\<^verbatim>\<open>not use_fresh_context and (contents := _parse_prompt(word))\<close>: \<^verbatim>\<open>Some\<close> of a
      non-empty text when the condition holds\<close>
  "inline_contents e word =
     (if use_fresh_context e then Inr None
      else (case parse_prompt e word of
              Inl x \<Rightarrow> Inl x
            | Inr None \<Rightarrow> Inr None
            | Inr (Some contents) \<Rightarrow> if contents = [] then Inr None else Inr (Some contents)))"

definition include_file :: "env \<Rightarrow> string \<Rightarrow> string list \<Rightarrow> py_error + string list" where
  \<comment> \<open>the \<^verbatim>\<open>else\<close> branch: the file goes to \<^verbatim>\<open>files\<close>, relative to the workspace\<close>
  "include_file e word fls =
     (case parse_prompt_files e word of
        Inl x \<Rightarrow> Inl x
      | Inr None \<Rightarrow> Inr fls
      | Inr (Some p) \<Rightarrow>
          (let file = expanduser e p
           in if workspace e \<noteq> None \<and> \<not> startswith file ''/''
              then (case relative_to_workspace e file of
                      None \<Rightarrow> Inl ValueError
                    | Some r \<Rightarrow> Inr (fls @ [r]))
              else Inr (fls @ [file])))"

fun include_words ::
  "env \<Rightarrow> string list \<Rightarrow> string \<Rightarrow> string list \<Rightarrow> py_error + string \<times> string list" where
  "include_words e [] append_msg fls = Inr (append_msg, fls)"
| "include_words e (w # ws) append_msg fls =
     (let word = clean_word w
      in if word = [] then include_words e ws append_msg fls
         else if \<not> is_candidate e word then include_words e ws append_msg fls
         else (case inline_contents e word of
                 Inl x \<Rightarrow> Inl x
               | Inr (Some contents) \<Rightarrow>
                   include_words e ws (append_msg @ [LF, LF] @ contents) fls
               | Inr None \<Rightarrow>
                   (case include_file e word fls of
                      Inl x \<Rightarrow> Inl x
                    | Inr fls' \<Rightarrow> include_words e ws append_msg fls')))"

definition content_words :: "string \<Rightarrow> string list" where
  \<comment> \<open>\<^verbatim>\<open>re.split(r"[\s`]", content_no_codeblocks)\<close>\<close>
  "content_words text =
     split_where (\<lambda>c. is_space c \<or> c = CHR ''`'') (strip_codeblocks text)"

definition include_paths :: "env \<Rightarrow> message \<Rightarrow> py_error + message" where
  "include_paths e msg =
     (if role msg \<noteq> ''user'' then Inl AssertionError
      else (case include_words e (content_words (content msg)) [] [] of
              Inl x \<Rightarrow> Inl x
            | Inr (append_msg, fls) \<Rightarrow>
                (let msg1 = (if fls \<noteq> [] then msg\<lparr>files := files msg @ fls\<rparr> else msg)
                 in Inr (if append_msg \<noteq> []
                         then msg1\<lparr>content := content msg1 @ append_msg\<rparr> else msg1))))"

definition notes_env :: env where
  "notes_env =
     \<lparr>cwd_files = [''notes.txt''],
      lookup = (\<lambda>p. if p = ''./notes.txt'' \<or> p = ''notes.txt'' then Text_file ''hello'' else Missing),
      expanduser = (\<lambda>p. p),
      workspace = None,
      relative_to_workspace = (\<lambda>p. Some p),
      commands = [''undo'', ''help''],
      use_fresh_context = False,
      has_browser = False,
      is_url = (\<lambda>w. startswith w ''http://'' \<or> startswith w ''https://''),
      read_url = (\<lambda>u. None),
      clock = ''2024-01-01T10:00:00'',
      prompt_user = (\<lambda>l. ''hello''),
      prepare_messages = (\<lambda>l. l),
      reply = (\<lambda>l. Cancelled),
      execute_msg = (\<lambda>m. ([], False))\<rparr>"

section \<open>Facts about tokenizing\<close>

lemma split_where_pieces: "w \<in> set (split_where p s) \<Longrightarrow> c \<in> set w \<Longrightarrow> \<not> p c"
proof (induction s arbitrary: w)
  case Nil
  then show ?case by simp
next
  case (Cons a s)
  show ?case
  proof (cases "p a")
    case True
    with Cons show ?thesis by auto
  next
    case False
    obtain v vs where sp: "split_where p s = v # vs"
      by (cases "split_where p s") (use Cons.prems in \<open>auto split: list.splits\<close>, cases s, auto split: if_splits list.splits)
    with False Cons.prems(1) have "w = a # v \<or> w \<in> set vs" by auto
    then show ?thesis
    proof
      assume "w = a # v"
      with Cons.prems(2) have "c = a \<or> c \<in> set v" by auto
      then show ?thesis using False Cons.IH [of v] sp by auto
    next
      assume "w \<in> set vs"
      then show ?thesis using Cons.IH [of w] sp Cons.prems(2) by auto
    qed
  qed
qed

lemma content_words_no_backtick:
  "w \<in> set (content_words text) \<Longrightarrow> CHR ''`'' \<notin> set w"
  using split_where_pieces [of w "\<lambda>c. is_space c \<or> c = CHR ''`''" "strip_codeblocks text" "CHR ''`''"]
  by (auto simp: content_words_def)

lemma strip_chars_absent: "CHR ''`'' \<notin> set w \<Longrightarrow> strip_chars ''`'' w = w"
proof -
  assume a: "CHR ''`'' \<notin> set w"
  then have "dropWhile (\<lambda>c. c \<in> set ''`'') w = w"
    by (cases w) auto
  moreover have "dropWhile (\<lambda>c. c \<in> set ''`'') (rev w) = rev w"
    using a by (cases w rule: rev_cases) auto
  ultimately show ?thesis
    by (simp add: strip_chars_def lstrip_chars_def rstrip_chars_def)
qed

lemma rstrip_question_replicate:
  "rstrip_chars ''?'' (w @ replicate n (CHR ''?'')) = rstrip_chars ''?'' w"
proof -
  have "dropWhile (\<lambda>c. c \<in> set ''?'') (replicate n (CHR ''?'') @ r)
        = dropWhile (\<lambda>c. c \<in> set ''?'') r" for r
    by (induction n) simp_all
  then show ?thesis by (simp add: rstrip_chars_def)
qed

lemma rstrip_question_decompose:
  "\<exists>k. w = rstrip_chars ''?'' w @ replicate k (CHR ''?'')"
proof -
  let ?P = "\<lambda>c. c \<in> set ''?''"
  have t: "takeWhile ?P xs = replicate (length (takeWhile ?P xs)) (CHR ''?'')" for xs
    by (induction xs) simp_all
  have "rev w = takeWhile ?P (rev w) @ dropWhile ?P (rev w)" by simp
  then have "w = rev (dropWhile ?P (rev w)) @ rev (takeWhile ?P (rev w))"
    by (metis rev_append rev_rev_ident)
  moreover have "rev (takeWhile ?P (rev w)) = replicate (length (takeWhile ?P (rev w))) (CHR ''?'')"
    using t [of "rev w"] by (metis rev_replicate)
  ultimately show ?thesis unfolding rstrip_chars_def by metis
qed

lemma rstrip_question_last:
  "rstrip_chars ''?'' w \<noteq> [] \<Longrightarrow> last (rstrip_chars ''?'' w) \<noteq> CHR ''?''"
proof -
  let ?P = "\<lambda>c. c \<in> set ''?''"
  assume a: "rstrip_chars ''?'' w \<noteq> []"
  then have ne: "dropWhile ?P (rev w) \<noteq> []" by (simp add: rstrip_chars_def)
  then have "\<not> ?P (hd (dropWhile ?P (rev w)))" by (rule hd_dropWhile)
  moreover have "last (rstrip_chars ''?'' w) = hd (dropWhile ?P (rev w))"
    using ne by (simp add: rstrip_chars_def last_rev)
  ultimately show ?thesis by simp
qed

text \<open>
  C7, as stated: exactly one trailing question mark is stripped, so a token that ends in
  two keeps one.  \<^verbatim>\<open>rstrip("?")\<close> removes both.
\<close>

theorem clean_word_counterexample:
  "clean_word ''./notes.txt??'' = ''./notes.txt''
   \<and> clean_word ''./notes.txt??'' \<noteq> ''./notes.txt?''"
  by (simp add: clean_word_def rstrip_chars_def strip_chars_def lstrip_chars_def)

text \<open>
  C7, amended.  A piece that the parser's split of the content yields holds no backtick,
  and the word made from it is the piece without all of its trailing question marks: the
  piece is the word followed by question marks only, the word does not end in a question
  mark, and adding any number of question marks to the piece gives the same word.
\<close>

theorem clean_word_strips_every_question_mark:
  assumes "w \<in> set (content_words text)"
  shows "CHR ''`'' \<notin> set w
         \<and> (\<exists>k. w = clean_word w @ replicate k (CHR ''?''))
         \<and> (clean_word w = [] \<or> last (clean_word w) \<noteq> CHR ''?'')
         \<and> clean_word (w @ replicate n (CHR ''?'')) = clean_word w"
proof -
  have nb: "CHR ''`'' \<notin> set w" using assms by (rule content_words_no_backtick)
  then have nb': "CHR ''`'' \<notin> set (w @ replicate n (CHR ''?''))" by auto
  have c: "clean_word w = rstrip_chars ''?'' w"
    using nb by (simp add: clean_word_def strip_chars_absent)
  have c': "clean_word (w @ replicate n (CHR ''?'')) = rstrip_chars ''?'' (w @ replicate n (CHR ''?''))"
    using strip_chars_absent [OF nb'] by (simp add: clean_word_def)
  show ?thesis
    using nb c c' rstrip_question_decompose [of w] rstrip_question_last [of w]
          rstrip_question_replicate [of w n]
    by auto
qed

theorem clean_word_strips_every_question_mark_witness:
  "''./notes.txt???'' \<in> set (content_words ''what is in ./notes.txt???'')
   \<and> clean_word ''./notes.txt???'' = ''./notes.txt''
   \<and> ''./notes.txt???'' = clean_word ''./notes.txt???'' @ replicate 3 (CHR ''?'')
   \<and> clean_word (''./notes.txt???'' @ replicate 2 (CHR ''?'')) = clean_word ''./notes.txt???''"
proof -
  have m: "''./notes.txt???'' \<in> set (content_words ''what is in ./notes.txt???'')"
    by (simp add: content_words_def startswith_def FENCE_def is_space_def)
  have v: "clean_word ''./notes.txt???'' = ''./notes.txt''"
    by (simp add: clean_word_def rstrip_chars_def strip_chars_def lstrip_chars_def)
  have r: "replicate 3 (CHR ''?'') = ''???''" by (simp add: numeral_3_eq_3)
  show ?thesis
    using clean_word_strips_every_question_mark [OF m, of 2] m v r by simp
qed

section \<open>Inlining a text file\<close>

















section \<open>One step of the chat loop (gptme/chat.py)\<close>

definition interrupted_msg :: "env \<Rightarrow> message" where
  \<comment> \<open>\<^verbatim>\<open>Message("system", "Interrupted")\<close>\<close>
  "interrupted_msg e = Message ''system'' ''Interrupted'' (clock e)"

text \<open>
  \<^verbatim>\<open>step\<close> is a generator.  Its run to the end is recorded as: whether it asked the
  user, the messages it gave to the model (if the model was called), the messages it
  yielded in order, and the exception it ended with, if any.  A Message counts as true in
  a condition, so \<^verbatim>\<open>not last_msg\<close> holds for the empty log only and the response of
  the model is always yielded.  A new message takes its timestamp from the clock of the
  environment.
\<close>

record step_result =
  asked :: bool
  sent :: "message list option"
  yielded :: "message list"
  raised :: "py_error option"

definition needs_input :: "message list \<Rightarrow> bool" where
  \<comment> \<open>lines 204 to 211: the condition under which the step asks the user\<close>
  "needs_input lg =
     (case rev lg of
        [] \<Rightarrow> True
      | last_msg # _ \<Rightarrow>
          role last_msg \<in> set [''assistant'']
          \<or> content last_msg = ''Interrupted''
          \<or> pinned last_msg
          \<or> \<not> list_ex (\<lambda>r. r = ''user'') (map role lg))"

definition step :: "env \<Rightarrow> message list \<Rightarrow> step_result" where
  "step e lg =
     (let input =
            (if needs_input lg then
               (case include_paths e ((Message ''user'' (prompt_user e lg) (clock e))\<lparr>quiet := True\<rparr>) of
                  Inl x \<Rightarrow> Inl x
                | Inr msg \<Rightarrow> Inr ([msg], lg @ [msg]))
             else Inr ([], lg))
      in case input of
           Inl x \<Rightarrow> \<lparr>asked = needs_input lg, sent = None, yielded = [], raised = Some x\<rparr>
         | Inr (pre, lg1) \<Rightarrow>
             (let msgs = prepare_messages e lg1
              in case reply e msgs of
                   Cancelled \<Rightarrow>
                     \<lparr>asked = needs_input lg, sent = Some msgs,
                      yielded = pre @ [interrupted_msg e], raised = None\<rparr>
                 | Replied msg_response \<Rightarrow>
                     (case execute_msg e msg_response of
                        (tool_msgs, cancelled) \<Rightarrow>
                          \<lparr>asked = needs_input lg, sent = Some msgs,
                           yielded = pre @ [msg_response\<lparr>quiet := True\<rparr>] @ tool_msgs
                                     @ (if cancelled then [interrupted_msg e] else []),
                           raised = None\<rparr>)))"

section \<open>The chat loop around a step\<close>

text \<open>
  The loop appends each yielded message; a yielded user message is offered to
  \<^verbatim>\<open>execute_cmd\<close> (gptme/commands.py, an argument here), and the loop over the step's
  messages stops when that handles it.  \<^verbatim>\<open>runnable\<close> says whether a content holds a
  runnable tool use (gptme/tools).  A cancellation reaches the model call or the tool run,
  both inside the \<^verbatim>\<open>try\<close> of \<^verbatim>\<open>step\<close>; the handler around the call of \<^verbatim>\<open>step\<close> in
  the scripted loop, for a KeyboardInterrupt that leaves \<^verbatim>\<open>step\<close>, is therefore not
  part of the passes modelled here.
\<close>

type_synonym executor = "message \<Rightarrow> state \<Rightarrow> bool \<times> state"

fun append_responses :: "executor \<Rightarrow> message list \<Rightarrow> state \<Rightarrow> state" where
  "append_responses execute_cmd [] s = s"
| "append_responses execute_cmd (msg # rest) s =
     (let s1 = append_lm msg s
      in if role msg = ''user''
         then (case execute_cmd msg s1 of
                 (handled, s2) \<Rightarrow> if handled then s2 else append_responses execute_cmd rest s2)
         else append_responses execute_cmd rest s1)"

definition interactive_turn :: "env \<Rightarrow> executor \<Rightarrow> state \<Rightarrow> py_error option \<times> state" where
  \<comment> \<open>lines 180 to 187: the step on the current log, its messages appended\<close>
  "interactive_turn e execute_cmd s =
     (let r = step e (log s) in (raised r, append_responses execute_cmd (yielded r) s))"

definition last_assistant_content :: "message list \<Rightarrow> string" where
  "last_assistant_content lg =
     (case filter (\<lambda>m. role m = ''assistant'') (rev lg) of [] \<Rightarrow> [] | m # _ \<Rightarrow> content m)"

definition respond_pass ::
  "env \<Rightarrow> executor \<Rightarrow> (string \<Rightarrow> bool) \<Rightarrow> state \<Rightarrow> py_error option \<times> bool \<times> state" where
  \<comment> \<open>lines 126 to 165, one pass of the inner loop of a scripted prompt: the flag says
      whether the loop goes round again\<close>
  "respond_pass e execute_cmd runnable s =
     (let r = step e (log s)
      in case raised r of
           Some x \<Rightarrow> (Some x, False, s)
         | None \<Rightarrow>
             (let s1 = append_responses execute_cmd (yielded r) s
              in (None, runnable (last_assistant_content (log s1)), s1)))"

partial_function (option) respond_loop ::
  "env \<Rightarrow> executor \<Rightarrow> (string \<Rightarrow> bool) \<Rightarrow> state \<Rightarrow> (py_error option \<times> state) option" where
  "respond_loop e execute_cmd runnable s =
     (let r = respond_pass e execute_cmd runnable s
      in if fst r \<noteq> None then Some (fst r, snd (snd r))
         else if fst (snd r) then respond_loop e execute_cmd runnable (snd (snd r))
         else Some (None, snd (snd r)))"

declare respond_loop.simps [code]

definition run_prompt ::
  "env \<Rightarrow> executor \<Rightarrow> (string \<Rightarrow> bool) \<Rightarrow> message \<Rightarrow> state \<Rightarrow> (py_error option \<times> state) option" where
  \<comment> \<open>lines 116 to 165: one queued prompt\<close>
  "run_prompt e execute_cmd runnable msg s =
     (case (if \<not> startswith (content msg) ''/'' then include_paths e msg else Inr msg) of
        Inl x \<Rightarrow> Some (Some x, s)
      | Inr msg1 \<Rightarrow>
          (case execute_cmd msg1 (append_lm msg1 s) of
             (handled, s2) \<Rightarrow>
               if handled then Some (None, s2) else respond_loop e execute_cmd runnable s2))"

definition no_command :: executor where
  "no_command msg s = (False, s)"

section \<open>When a step asks for input\<close>


lemma step_no_input:
  "\<not> needs_input lg \<Longrightarrow>
   step e lg =
     (case reply e (prepare_messages e lg) of
        Cancelled \<Rightarrow>
          \<lparr>asked = False, sent = Some (prepare_messages e lg), yielded = [interrupted_msg e],
           raised = None\<rparr>
      | Replied msg_response \<Rightarrow>
          \<lparr>asked = False, sent = Some (prepare_messages e lg),
           yielded = [msg_response\<lparr>quiet := True\<rparr>] @ fst (execute_msg e msg_response)
                     @ (if snd (execute_msg e msg_response) then [interrupted_msg e] else []),
           raised = None\<rparr>)"
  by (simp add: step_def Let_def split: reply_result.splits prod.splits)

lemma step_with_input:
  "needs_input lg \<Longrightarrow>
   include_paths e ((Message ''user'' (prompt_user e lg) (clock e))\<lparr>quiet := True\<rparr>) = Inr msg \<Longrightarrow>
   step e lg =
     (case reply e (prepare_messages e (lg @ [msg])) of
        Cancelled \<Rightarrow>
          \<lparr>asked = True, sent = Some (prepare_messages e (lg @ [msg])),
           yielded = [msg, interrupted_msg e], raised = None\<rparr>
      | Replied msg_response \<Rightarrow>
          \<lparr>asked = True, sent = Some (prepare_messages e (lg @ [msg])),
           yielded = [msg, msg_response\<lparr>quiet := True\<rparr>] @ fst (execute_msg e msg_response)
                     @ (if snd (execute_msg e msg_response) then [interrupted_msg e] else []),
           raised = None\<rparr>)"
  by (simp add: step_def Let_def split: reply_result.splits prod.splits)





section \<open>A cancelled model call\<close>

lemma append_lm_log: "log (append_lm msg s) = log s @ [msg]"
  by (simp add: append_lm_def write_lm_def Let_def)

lemma interrupted_role: "role (interrupted_msg e) = ''system''"
  by (simp add: interrupted_msg_def Message_def)

lemma last_assistant_content_system:
  "role m \<noteq> ''assistant'' \<Longrightarrow> last_assistant_content (lg @ [m]) = last_assistant_content lg"
  by (simp add: last_assistant_content_def)

lemma include_paths_role: "include_paths e m = Inr m' \<Longrightarrow> role m' = role m"
  by (auto simp: include_paths_def Let_def split: if_splits sum.splits prod.splits)

lemma append_responses_sentinel:
  "append_responses execute_cmd [interrupted_msg e] s = append_lm (interrupted_msg e) s"
  by (simp add: interrupted_role Let_def)

text \<open>
  C2, as stated: after a cycle whose model call was cancelled the log holds exactly one
  message more than before the cycle.  A cycle that starts by asking the user keeps the
  user's message as well.
\<close>

theorem cancelled_turn_counterexample:
  "needs_input (log (fresh_state\<lparr>log := [msg_reply]\<rparr>))
   \<and> reply notes_env (the (sent (step notes_env [msg_reply]))) = Cancelled
   \<and> length (log (snd (interactive_turn notes_env no_command (fresh_state\<lparr>log := [msg_reply]\<rparr>))))
       = length (log (fresh_state\<lparr>log := [msg_reply]\<rparr>)) + 2"
proof -
  let ?u = "(Message ''user'' ''hello'' ''2024-01-01T10:00:00'')\<lparr>quiet := True\<rparr>"
  have n: "needs_input [msg_reply]"
    by (simp add: needs_input_def msg_reply_def Message_def)
  have i: "include_paths notes_env
             ((Message ''user'' (prompt_user notes_env [msg_reply]) (clock notes_env))\<lparr>quiet := True\<rparr>)
           = Inr ?u"
    by (simp add: notes_env_def include_paths_def content_words_def Message_def
        startswith_def FENCE_def is_space_def clean_word_def rstrip_chars_def strip_chars_def
        lstrip_chars_def is_candidate_def Let_def)
  have r: "reply notes_env msgs = Cancelled" for msgs by (simp add: notes_env_def)
  have st: "step notes_env [msg_reply]
            = \<lparr>asked = True, sent = Some (prepare_messages notes_env ([msg_reply] @ [?u])),
               yielded = [?u, interrupted_msg notes_env], raised = None\<rparr>"
    using step_with_input [OF n i] r by simp
  have "log (snd (interactive_turn notes_env no_command (fresh_state\<lparr>log := [msg_reply]\<rparr>)))
        = [msg_reply, ?u, interrupted_msg notes_env]"
    using st
    by (simp add: interactive_turn_def Let_def no_command_def append_lm_log interrupted_role
          fresh_state_def Message_def)
  then show ?thesis using n r by (simp add: fresh_state_def)
qed

text \<open>
  C2, amended.  If the model call of a step is cancelled, the step yields no assistant
  message: after the user's message, if the step had to ask for one, it yields exactly the
  system message \<^verbatim>\<open>Interrupted\<close>.  So when the step needed no input the loop appends
  exactly one message, the sentinel, in the interactive loop as in a scripted pass, and a
  scripted prompt's loop then ends unless the last assistant message still holds a
  runnable tool use.  When the step asked for input first, and the input is not a command,
  the log grows by two: the user's message and the sentinel.
\<close>

theorem cancelled_model_call:
  "(\<not> needs_input (log s) \<and> reply e (prepare_messages e (log s)) = Cancelled \<longrightarrow>
      yielded (step e (log s)) = [interrupted_msg e]
      \<and> interactive_turn e execute_cmd s = (None, append_lm (interrupted_msg e) s)
      \<and> log (snd (interactive_turn e execute_cmd s)) = log s @ [interrupted_msg e]
      \<and> respond_pass e execute_cmd runnable s
          = (None, runnable (last_assistant_content (log s)), append_lm (interrupted_msg e) s)
      \<and> (\<not> runnable (last_assistant_content (log s)) \<longrightarrow>
           respond_loop e execute_cmd runnable s = Some (None, append_lm (interrupted_msg e) s)))
   \<and> (needs_input (log s)
       \<and> include_paths e ((Message ''user'' (prompt_user e (log s)) (clock e))\<lparr>quiet := True\<rparr>) = Inr msg
       \<and> reply e (prepare_messages e (log s @ [msg])) = Cancelled
       \<and> execute_cmd msg (append_lm msg s) = (False, append_lm msg s) \<longrightarrow>
      yielded (step e (log s)) = [msg, interrupted_msg e]
      \<and> role msg = ''user''
      \<and> role (interrupted_msg e) = ''system'' \<and> content (interrupted_msg e) = ''Interrupted''
      \<and> log (snd (interactive_turn e execute_cmd s)) = log s @ [msg, interrupted_msg e])"
proof (intro conjI impI)
  assume a: "\<not> needs_input (log s) \<and> reply e (prepare_messages e (log s)) = Cancelled"
  then have st: "step e (log s)
      = \<lparr>asked = False, sent = Some (prepare_messages e (log s)),
         yielded = [interrupted_msg e], raised = None\<rparr>"
    using step_no_input [of "log s" e] by simp
  show y: "yielded (step e (log s)) = [interrupted_msg e]" by (simp add: st)
  show t: "interactive_turn e execute_cmd s = (None, append_lm (interrupted_msg e) s)"
    by (simp add: interactive_turn_def st interrupted_role Let_def)
  show "log (snd (interactive_turn e execute_cmd s)) = log s @ [interrupted_msg e]"
    by (simp add: t append_lm_log)
  show p: "respond_pass e execute_cmd runnable s
          = (None, runnable (last_assistant_content (log s)), append_lm (interrupted_msg e) s)"
    by (simp add: respond_pass_def st interrupted_role Let_def append_lm_log
          last_assistant_content_system)
  show "respond_loop e execute_cmd runnable s = Some (None, append_lm (interrupted_msg e) s)"
    if "\<not> runnable (last_assistant_content (log s))"
    using that by (subst respond_loop.simps) (simp add: p)
next
  assume b: "needs_input (log s)
       \<and> include_paths e ((Message ''user'' (prompt_user e (log s)) (clock e))\<lparr>quiet := True\<rparr>) = Inr msg
       \<and> reply e (prepare_messages e (log s @ [msg])) = Cancelled
       \<and> execute_cmd msg (append_lm msg s) = (False, append_lm msg s)"
  then have st: "step e (log s)
      = \<lparr>asked = True, sent = Some (prepare_messages e (log s @ [msg])),
         yielded = [msg, interrupted_msg e], raised = None\<rparr>"
    using step_with_input [of "log s" e msg] by simp
  show "yielded (step e (log s)) = [msg, interrupted_msg e]" by (simp add: st)
  show u: "role msg = ''user''"
    using b include_paths_role [of e _ msg] by (auto simp: Message_def)
  show "role (interrupted_msg e) = ''system''" by (rule interrupted_role)
  show "content (interrupted_msg e) = ''Interrupted''"
    by (simp add: interrupted_msg_def Message_def)
  show "log (snd (interactive_turn e execute_cmd s)) = log s @ [msg, interrupted_msg e]"
    using b u by (simp add: interactive_turn_def st interrupted_role Let_def append_lm_log)
qed

theorem cancelled_model_call_witness:
  "\<not> needs_input (log (fresh_state\<lparr>log := [msg_hi]\<rparr>))
   \<and> reply notes_env (prepare_messages notes_env (log (fresh_state\<lparr>log := [msg_hi]\<rparr>))) = Cancelled
   \<and> log (snd (interactive_turn notes_env no_command (fresh_state\<lparr>log := [msg_hi]\<rparr>)))
       = [msg_hi, interrupted_msg notes_env]
   \<and> respond_loop notes_env no_command (\<lambda>c. False) (fresh_state\<lparr>log := [msg_hi]\<rparr>)
       = Some (None, append_lm (interrupted_msg notes_env) (fresh_state\<lparr>log := [msg_hi]\<rparr>))
   \<and> needs_input (log (fresh_state\<lparr>log := [msg_reply]\<rparr>))
   \<and> log (snd (interactive_turn notes_env no_command (fresh_state\<lparr>log := [msg_reply]\<rparr>)))
       = [msg_reply, (Message ''user'' ''hello'' ''2024-01-01T10:00:00'')\<lparr>quiet := True\<rparr>,
          interrupted_msg notes_env]"
proof -
  let ?u = "(Message ''user'' ''hello'' ''2024-01-01T10:00:00'')\<lparr>quiet := True\<rparr>"
  let ?s1 = "fresh_state\<lparr>log := [msg_hi]\<rparr>" and ?s2 = "fresh_state\<lparr>log := [msg_reply]\<rparr>"
  have n1: "\<not> needs_input (log ?s1)"
    by (simp add: needs_input_def msg_hi_def Message_def fresh_state_def)
  have n2: "needs_input (log ?s2)"
    by (simp add: needs_input_def msg_reply_def Message_def fresh_state_def)
  have r: "reply notes_env msgs = Cancelled" for msgs by (simp add: notes_env_def)
  have i: "include_paths notes_env
             ((Message ''user'' (prompt_user notes_env (log ?s2)) (clock notes_env))\<lparr>quiet := True\<rparr>)
           = Inr ?u"
    by (simp add: notes_env_def include_paths_def content_words_def Message_def
        startswith_def FENCE_def is_space_def clean_word_def rstrip_chars_def strip_chars_def
        lstrip_chars_def is_candidate_def Let_def)
  have x: "no_command ?u (append_lm ?u ?s2) = (False, append_lm ?u ?s2)"
    by (simp add: no_command_def)
  have l1: "log ?s1 = [msg_hi]" and l2: "log ?s2 = [msg_reply]" by (simp_all add: fresh_state_def)
  have la: "last_assistant_content (log ?s1) = []"
    by (simp add: l1 last_assistant_content_def msg_hi_def Message_def)
  show ?thesis
    using cancelled_model_call [of ?s1 notes_env no_command "\<lambda>c. False" ?u]
          cancelled_model_call [of ?s2 notes_env no_command "\<lambda>c. False" ?u]
          n1 n2 r i x l1 l2
    by (simp add: append_lm_log)
qed

end
